theory Spec2Isabelle
  imports Main "HOL-Library.DAList" "HOL-Library.Multiset"
begin

section \<open>The reflection interface used by the registry\<close>

text \<open>
  The package keys its registry by \<^verbatim>\<open>reflect.Type\<close> and stores \<^verbatim>\<open>reflect.Value\<close>s.
  Type descriptors are an arbitrary type \<open>'ty\<close>; what the code asks of a descriptor
  (\<^verbatim>\<open>Kind\<close>, \<^verbatim>\<open>Elem\<close>, \<^verbatim>\<open>Implements\<close>) and what \<^verbatim>\<open>Value.Set\<close> and \<^verbatim>\<open>Value.Call\<close>
  ask of one (\<^verbatim>\<open>AssignableTo\<close>) is a record of functions, so that every theorem holds for
  every Go type universe. A \<^verbatim>\<open>reflect.Type\<close> is an interface value and can be nil (it is,
  for \<^verbatim>\<open>reflect.TypeOf(nil)\<close>): a \<^verbatim>\<open>reflect.Type\<close> is a \<open>'ty option\<close>, \<open>None\<close> for nil, and a
  method called on the nil \<^verbatim>\<open>reflect.Type\<close> panics.
\<close>

datatype Kind = Ptr | Interface | Struct | Func | OtherKind

record 'ty reflect =
  Kind :: "'ty \<Rightarrow> Kind"
  Elem :: "'ty \<Rightarrow> 'ty"
  Implements :: "'ty \<Rightarrow> 'ty \<Rightarrow> bool"
  AssignableTo :: "'ty \<Rightarrow> 'ty \<Rightarrow> bool"

text \<open>
  A \<^verbatim>\<open>reflect.Value\<close> is the zero Value (\<^verbatim>\<open>reflect.Value{}\<close>, also the result of
  \<^verbatim>\<open>reflect.ValueOf(nil)\<close>), for which \<^verbatim>\<open>IsValid\<close> is false, or a value of some dynamic type
  with a payload. A valid Value that was obtained through an unexported struct field is
  read-only (\<open>ReadOnly\<close>): \<^verbatim>\<open>reflect\<close> refuses to hand it on. An argument of Go type
  \<^verbatim>\<open>interface{}\<close> is given by its \<^verbatim>\<open>reflect.ValueOf\<close>, so \<open>Zero\<close> also stands for the nil
  interface.
\<close>

datatype ('ty, 'a) Value = Zero | ValueOf 'ty 'a | ReadOnly 'ty 'a

fun IsValid :: "('ty, 'a) Value \<Rightarrow> bool" where
  "IsValid Zero = False"
| "IsValid (ValueOf t x) = True"
| "IsValid (ReadOnly t x) = True"

text \<open>\<^verbatim>\<open>reflect.TypeOf\<close>: nil for the nil interface.\<close>

fun TypeOf :: "('ty, 'a) Value \<Rightarrow> 'ty option" where
  "TypeOf Zero = None"
| "TypeOf (ValueOf t x) = Some t"
| "TypeOf (ReadOnly t x) = Some t"

text \<open>
  What \<^verbatim>\<open>Value.Set\<close> and \<^verbatim>\<open>Value.Call\<close> accept for a target of type \<open>t\<close>: they panic when
  they are handed the zero Value, a value obtained through an unexported field
  (\<^verbatim>\<open>mustBeExported\<close>), or a value whose type is not assignable to \<open>t\<close>.
\<close>

fun assignable :: "'ty reflect \<Rightarrow> ('ty, 'a) Value \<Rightarrow> 'ty \<Rightarrow> bool" where
  "assignable R Zero t = False"
| "assignable R (ValueOf vt x) t = AssignableTo R vt t"
| "assignable R (ReadOnly vt x) t = False"

datatype 'x outcome = Panic | Return 'x

section \<open>The registry\<close>

text \<open>
  \<^verbatim>\<open>type injector struct { values map[reflect.Type]reflect.Value; parent Injector }\<close>.
  The map is an association list with distinct keys (\<open>('k, 'v) alist\<close>); a key is a
  \<^verbatim>\<open>reflect.Type\<close>, the nil one included. The parent is the registry the \<^verbatim>\<open>parent\<close> reference
  points to, \<open>None\<close> for nil; it is a registry of this package, the one implementation of
  \<^verbatim>\<open>Injector\<close>. The parent linkage is acyclic (which \<^verbatim>\<open>SetParent\<close> leaves to
  its caller), so the chain of parents is finite: a registry is given together with the
  state of its ancestors at the time of the call.
\<close>

datatype ('ty, 'a) injector =
  Injector (values_of: "('ty option, ('ty, 'a) Value) alist")
    (parent: "('ty, 'a) injector option")

text \<open>\<^verbatim>\<open>New\<close>: an empty map and no parent.\<close>

definition New :: "('ty, 'a) injector" where
  "New = Injector DAList.empty None"

text \<open>\<^verbatim>\<open>inj.values[t]\<close>: indexing a Go map with an absent key gives the zero Value.\<close>

definition index :: "('ty option, ('ty, 'a) Value) alist \<Rightarrow> 'ty option \<Rightarrow> ('ty, 'a) Value" where
  "index m t = (case DAList.lookup m t of None \<Rightarrow> Zero | Some v \<Rightarrow> v)"

text \<open>\<^verbatim>\<open>Set\<close>: \<^verbatim>\<open>inj.values[typ] = val\<close>.\<close>

definition Set :: "('ty, 'a) injector \<Rightarrow> 'ty option \<Rightarrow> ('ty, 'a) Value \<Rightarrow> ('ty, 'a) injector" where
  "Set injr typ val = Injector (DAList.update typ val (values_of injr)) (parent injr)"

text \<open>
  \<^verbatim>\<open>Map\<close>: \<^verbatim>\<open>inj.values[reflect.TypeOf(val)] = reflect.ValueOf(val)\<close>. \<^verbatim>\<open>Map(nil)\<close> stores the
  zero Value under the nil \<^verbatim>\<open>reflect.Type\<close>.
\<close>

definition Map :: "('ty, 'a) injector \<Rightarrow> ('ty, 'a) Value \<Rightarrow> ('ty, 'a) injector" where
  "Map injr val = Injector (DAList.update (TypeOf val) val (values_of injr)) (parent injr)"

text \<open>\<^verbatim>\<open>SetParent\<close>: \<^verbatim>\<open>inj.parent = parent\<close>.\<close>

definition SetParent :: "('ty, 'a) injector \<Rightarrow> ('ty, 'a) injector option \<Rightarrow> ('ty, 'a) injector" where
  "SetParent injr p = Injector (values_of injr) p"

subsection \<open>Get\<close>

text \<open>
  Go does not fix the order in which \<^verbatim>\<open>range\<close> visits a map, and it may differ from one
  loop to the next. \<open>range_orders xs\<close> lists every order in which the entries \<open>xs\<close> can
  be visited.
\<close>

fun inserts :: "'x \<Rightarrow> 'x list \<Rightarrow> 'x list list" where
  "inserts x [] = [[x]]"
| "inserts x (y # ys) = (x # y # ys) # map ((#) y) (inserts x ys)"

fun range_orders :: "'x list \<Rightarrow> 'x list list" where
  "range_orders [] = [[]]"
| "range_orders (x # xs) = concat (map (inserts x) (range_orders xs))"

text \<open>
  The loop of \<^verbatim>\<open>Get\<close> over one visiting order:
  \<^verbatim>\<open>for k, v := range inj.values { if k.Implements(t) { val = v; break } }\<close>.
  \<^verbatim>\<open>k.Implements(t)\<close> on the nil key is a nil dereference: the loop panics when it meets
  that key before a key that implements \<open>t\<close>.
\<close>

fun range_loop :: "'ty reflect \<Rightarrow> 'ty \<Rightarrow> ('ty option \<times> ('ty, 'a) Value) list
    \<Rightarrow> ('ty, 'a) Value \<Rightarrow> ('ty, 'a) Value outcome" where
  "range_loop R t [] val = Return val"
| "range_loop R t ((k, v) # rest) val =
     (case k of
        None \<Rightarrow> Panic
      | Some k' \<Rightarrow> if Implements R k' t then Return v else range_loop R t rest val)"

text \<open>
  \<^verbatim>\<open>Get\<close> returns the set of outcomes the call can have, one for each visiting order the
  runtime may choose at each registry of the chain, each paired with the registry as the
  call leaves it. After the exact lookup, \<^verbatim>\<open>t.Kind()\<close> panics for the nil \<^verbatim>\<open>reflect.Type\<close>.
\<close>

fun Get :: "'ty reflect \<Rightarrow> ('ty, 'a) injector \<Rightarrow> 'ty option
    \<Rightarrow> (('ty, 'a) Value outcome \<times> ('ty, 'a) injector) set" where
  "Get R (Injector vals par) t =
    (let val = index vals t in
     if IsValid val then {(Return val, Injector vals par)}
     else
      (case t of
         None \<Rightarrow> {(Panic, Injector vals par)}
       | Some t' \<Rightarrow>
          (\<Union>order \<in> set (range_orders (DAList.impl_of vals)).
            (case (if Kind R t' = Interface then range_loop R t' order val else Return val) of
               Panic \<Rightarrow> {(Panic, Injector vals par)}
             | Return val \<Rightarrow>
                 (case par of
                    Some p \<Rightarrow>
                      if \<not> IsValid val
                      then (\<lambda>(v, p'). (v, Injector vals (Some p'))) ` Get R p t
                      else {(Return val, Injector vals par)}
                  | None \<Rightarrow> {(Return val, Injector vals par)})))))"

subsection \<open>InterfaceOf and MapTo\<close>

text \<open>
  \<^verbatim>\<open>InterfaceOf\<close>: \<^verbatim>\<open>t := reflect.TypeOf(value)\<close>, the loop
  \<^verbatim>\<open>for t.Kind() == reflect.Ptr { t = t.Elem() }\<close> and the check of the kind. For the nil
  interface \<open>t\<close> is nil and \<^verbatim>\<open>t.Kind()\<close> panics. A recursive pointer type (\<^verbatim>\<open>type P *P\<close>)
  keeps the loop running for ever: the result is then \<open>None\<close>.
\<close>

partial_function (option) InterfaceOf_loop :: "'ty reflect \<Rightarrow> 'ty \<Rightarrow> 'ty outcome option" where
  "InterfaceOf_loop R t =
     (if Kind R t = Ptr then InterfaceOf_loop R (Elem R t)
      else if Kind R t \<noteq> Interface then Some Panic
      else Some (Return t))"

definition InterfaceOf :: "'ty reflect \<Rightarrow> ('ty, 'b) Value \<Rightarrow> 'ty outcome option" where
  "InterfaceOf R v = (case TypeOf v of None \<Rightarrow> Some Panic | Some t \<Rightarrow> InterfaceOf_loop R t)"

text \<open>\<^verbatim>\<open>MapTo\<close>: \<^verbatim>\<open>inj.values[InterfaceOf(ifacePtr)] = reflect.ValueOf(val)\<close>.\<close>

definition MapTo :: "'ty reflect \<Rightarrow> ('ty, 'a) injector \<Rightarrow> ('ty, 'a) Value \<Rightarrow> ('ty, 'b) Value
    \<Rightarrow> ('ty, 'a) injector outcome option" where
  "MapTo R injr val ifacePtr =
     (case InterfaceOf R ifacePtr of
        None \<Rightarrow> None
      | Some Panic \<Rightarrow> Some Panic
      | Some (Return typ) \<Rightarrow>
          Some (Return (Injector (DAList.update (Some typ) val (values_of injr)) (parent injr))))"

text \<open>
  The pointer chain a hint type goes through: \<open>unwraps_to R t u\<close> when following \<^verbatim>\<open>Elem\<close>
  from \<open>t\<close> while the kind is \<^verbatim>\<open>Ptr\<close> ends at \<open>u\<close>.
\<close>

inductive unwraps_to :: "'ty reflect \<Rightarrow> 'ty \<Rightarrow> 'ty \<Rightarrow> bool" for R :: "'ty reflect" where
  unwraps_here: "Kind R t \<noteq> Ptr \<Longrightarrow> unwraps_to R t t"
| unwraps_step: "Kind R t = Ptr \<Longrightarrow> unwraps_to R (Elem R t) u \<Longrightarrow> unwraps_to R t u"

code_pred unwraps_to .

section \<open>Invoke\<close>

text \<open>
  The error of both \<^verbatim>\<open>Invoke\<close> and \<^verbatim>\<open>Apply\<close>:
  \<^verbatim>\<open>fmt.Errorf("Value not found for type %v", t)\<close>.
\<close>

datatype 'ty error = NotFound 'ty

text \<open>
  The argument of \<^verbatim>\<open>Invoke\<close>: a value that is not a function, or a function value with its
  parameter types (\<^verbatim>\<open>NumIn\<close>, \<^verbatim>\<open>In(i)\<close>), whether it is variadic, and its code: \<open>None\<close> for
  the nil function, else the body. The body takes the arguments of the call (for a
  variadic function: the fixed arguments followed by the elements of the variadic slice)
  and the state of the world the function can observe and change, and returns its results
  and the new state. A variadic function has at least one parameter, the last of a slice
  type.
\<close>

datatype ('ty, 'a, 'w) callee =
  NotFunc
| Function (In: "'ty list") (IsVariadic: bool)
    (code: "(('ty, 'a) Value list \<Rightarrow> 'w \<Rightarrow> ('ty, 'a) Value list \<times> 'w) option")

fun IsFunction :: "('ty, 'a, 'w) callee \<Rightarrow> bool" where
  "IsFunction NotFunc = False"
| "IsFunction (Function ins variadic c) = True"

text \<open>
  The loop of \<^verbatim>\<open>Invoke\<close> over the parameter types still to resolve, with the arguments
  resolved so far: a panic of \<^verbatim>\<open>Get\<close>, or \<open>Inl\<close> the error of the first parameter that does
  not resolve, or \<open>Inr\<close> the complete argument list.
\<close>

fun Invoke_loop :: "'ty reflect \<Rightarrow> ('ty, 'a) injector \<Rightarrow> 'ty list \<Rightarrow> ('ty, 'a) Value list
    \<Rightarrow> ('ty error + ('ty, 'a) Value list) outcome set" where
  "Invoke_loop R injr [] ins = {Return (Inr ins)}"
| "Invoke_loop R injr (argType # rest) ins =
     (\<Union>(r, injr') \<in> Get R injr (Some argType).
        case r of
          Panic \<Rightarrow> {Panic}
        | Return val \<Rightarrow>
            if \<not> IsValid val then {Return (Inl (NotFound argType))}
            else Invoke_loop R injr' rest (ins @ [val]))"

text \<open>
  The checks of \<^verbatim>\<open>reflect.Value.Call\<close> on its arguments, against the parameter types: each
  fixed parameter has an argument that \<^verbatim>\<open>Call\<close> accepts for its type, and there are
  neither too few nor too many; the last parameter of a variadic function takes all the
  arguments that remain, each accepted for the element type of that parameter (\<^verbatim>\<open>Call\<close>
  builds the variadic slice itself).
\<close>

fun accepts :: "'ty reflect \<Rightarrow> 'ty list \<Rightarrow> bool \<Rightarrow> ('ty, 'a) Value list \<Rightarrow> bool" where
  "accepts R [] variadic ins = (ins = [])"
| "accepts R [s] True ins = list_all (\<lambda>x. assignable R x (Elem R s)) ins"
| "accepts R (t # ts) variadic (x # xs) = (assignable R x t \<and> accepts R ts variadic xs)"
| "accepts R (t # ts) variadic [] = False"

text \<open>
  \<^verbatim>\<open>reflect.ValueOf(f).Call(in)\<close>: panics, before the function runs, for the nil function
  and for arguments that fail the checks; otherwise runs the body once.
\<close>

definition Call :: "'ty reflect \<Rightarrow> ('ty, 'a, 'w) callee \<Rightarrow> ('ty, 'a) Value list \<Rightarrow> 'w
    \<Rightarrow> ('ty, 'a) Value list outcome \<times> 'w" where
  "Call R f ins w =
     (case code f of
        None \<Rightarrow> (Panic, w)
      | Some b \<Rightarrow>
          if accepts R (In f) (IsVariadic f) ins
          then (Return (fst (b ins w)), snd (b ins w))
          else (Panic, w))"

text \<open>
  \<^verbatim>\<open>Invoke\<close> returns the set of its possible outcomes: a panic, or the pair of the result
  list and the error (\<open>[]\<close> for the nil slice, \<open>None\<close> for the nil error), each with the
  state of the world after the call.
\<close>

definition Invoke :: "'ty reflect \<Rightarrow> ('ty, 'a) injector \<Rightarrow> ('ty, 'a, 'w) callee \<Rightarrow> 'w
    \<Rightarrow> ((('ty, 'a) Value list \<times> 'ty error option) outcome \<times> 'w) set" where
  "Invoke R injr f w =
     (if \<not> IsFunction f then {(Panic, w)}
      else (\<Union>r \<in> Invoke_loop R injr (In f) [].
        case r of
          Panic \<Rightarrow> {(Panic, w)}
        | Return (Inl err) \<Rightarrow> {(Return ([], Some err), w)}
        | Return (Inr ins) \<Rightarrow>
            (case Call R f ins w of
               (Panic, w') \<Rightarrow> {(Panic, w')}
             | (Return rs, w') \<Rightarrow> {(Return (rs, None), w')})))"

section \<open>Apply\<close>

text \<open>
  A struct field as \<^verbatim>\<open>Apply\<close> sees it: the result of \<^verbatim>\<open>Tag.Lookup("inject")\<close> (\<open>None\<close> when
  the tag has no such key), whether the field is exported, its declared type and the
  value it holds.
\<close>

record ('ty, 'a) field =
  inject_tag :: "string option"
  exported :: bool
  ftype :: "'ty"
  fval :: "('ty, 'a) Value"

text \<open>
  The argument of \<^verbatim>\<open>Apply\<close>: a struct, a pointer to another such value, a nil pointer, or
  anything else (the nil interface included).
\<close>

datatype ('ty, 'a) target =
  NonStruct
| NilPtr
| PtrTo "('ty, 'a) target"
| StructVal "('ty, 'a) field list"

text \<open>\<^verbatim>\<open>f.Set(v)\<close> on a settable field.\<close>

definition Value_Set :: "'ty reflect \<Rightarrow> ('ty, 'a) field \<Rightarrow> ('ty, 'a) Value
    \<Rightarrow> ('ty, 'a) field outcome" where
  "Value_Set R f v = (if assignable R v (ftype f) then Return (f\<lparr>fval := v\<rparr>) else Panic)"

text \<open>The fields already passed stay in front of what the rest of the loop leaves.\<close>

definition keep :: "'f \<Rightarrow> ('r \<times> 'f list) set \<Rightarrow> ('r \<times> 'f list) set" where
  "keep f S = (\<lambda>(r, fs). (r, f # fs)) ` S"

text \<open>
  The loop of \<^verbatim>\<open>Apply\<close> over the fields. \<open>addr\<close> says whether the struct is addressable;
  \<^verbatim>\<open>f.CanSet()\<close> holds for the exported fields of an addressable struct. Each outcome comes
  with the fields as the loop leaves them: a panic or an error keeps what was assigned
  before it.
\<close>

fun Apply_loop :: "'ty reflect \<Rightarrow> ('ty, 'a) injector \<Rightarrow> bool \<Rightarrow> ('ty, 'a) field list
    \<Rightarrow> ('ty error option outcome \<times> ('ty, 'a) field list) set" where
  "Apply_loop R injr addr [] = {(Return None, [])}"
| "Apply_loop R injr addr (f # fs) =
     (if addr \<and> exported f then
        (case inject_tag f of
           Some tv \<Rightarrow>
             (\<Union>(r, injr') \<in> Get R injr (Some (ftype f)).
                case r of
                  Panic \<Rightarrow> {(Panic, f # fs)}
                | Return v \<Rightarrow>
                    if \<not> IsValid v \<and> tv \<noteq> ''-''
                    then {(Return (Some (NotFound (ftype f))), f # fs)}
                    else (case Value_Set R f v of
                            Panic \<Rightarrow> {(Panic, f # fs)}
                          | Return f' \<Rightarrow> keep f' (Apply_loop R injr' addr fs)))
         | None \<Rightarrow> keep f (Apply_loop R injr addr fs))
      else keep f (Apply_loop R injr addr fs))"

text \<open>
  \<^verbatim>\<open>for v.Kind() == reflect.Ptr { v = v.Elem() }\<close>, then the panic for anything but a
  struct. What \<^verbatim>\<open>Elem\<close> of a pointer gives is addressable; the \<^verbatim>\<open>Elem\<close> of a nil pointer
  is the zero Value, which is not a struct.
\<close>

fun Apply_at :: "'ty reflect \<Rightarrow> ('ty, 'a) injector \<Rightarrow> ('ty, 'a) target \<Rightarrow> bool
    \<Rightarrow> ('ty error option outcome \<times> ('ty, 'a) target) set" where
  "Apply_at R injr (PtrTo x) addr = (\<lambda>(r, x'). (r, PtrTo x')) ` Apply_at R injr x True"
| "Apply_at R injr (StructVal fs) addr =
     (\<lambda>(r, fs'). (r, StructVal fs')) ` Apply_loop R injr addr fs"
| "Apply_at R injr x addr = {(Panic, x)}"

definition Apply :: "'ty reflect \<Rightarrow> ('ty, 'a) injector \<Rightarrow> ('ty, 'a) target
    \<Rightarrow> ('ty error option outcome \<times> ('ty, 'a) target) set" where
  "Apply R injr val = Apply_at R injr val False"

section \<open>The types of the package's tests\<close>

text \<open>
  The types the tests of the package use: \<^verbatim>\<open>string\<close>, \<^verbatim>\<open>int\<close>, \<^verbatim>\<open>bool\<close>, the empty interface
  \<^verbatim>\<open>SpecialString\<close>, \<^verbatim>\<open>fmt.Stringer\<close>, the struct \<^verbatim>\<open>Greeter\<close> (whose pointer type has the
  method \<^verbatim>\<open>String\<close>), pointers to them and slices of them.
\<close>

datatype ty =
  T_string | T_int | T_bool | SpecialString | Stringer | Greeter | PointerTo ty | SliceOf ty

fun ty_Kind :: "ty \<Rightarrow> Kind" where
  "ty_Kind SpecialString = Interface"
| "ty_Kind Stringer = Interface"
| "ty_Kind Greeter = Struct"
| "ty_Kind (PointerTo t) = Ptr"
| "ty_Kind t = OtherKind"

fun ty_Elem :: "ty \<Rightarrow> ty" where
  "ty_Elem (PointerTo t) = t"
| "ty_Elem (SliceOf t) = t"
| "ty_Elem t = t"

fun ty_Implements :: "ty \<Rightarrow> ty \<Rightarrow> bool" where
  "ty_Implements k SpecialString = True"
| "ty_Implements k Stringer = (k = PointerTo Greeter \<or> k = Stringer)"
| "ty_Implements k t = False"

definition ty_AssignableTo :: "ty \<Rightarrow> ty \<Rightarrow> bool" where
  "ty_AssignableTo v t = (v = t \<or> (ty_Kind t = Interface \<and> ty_Implements v t))"

definition go :: "ty reflect" where
  "go = \<lparr>Kind = ty_Kind, Elem = ty_Elem, Implements = ty_Implements,
          AssignableTo = ty_AssignableTo\<rparr>"

section \<open>Notions used to state the properties\<close>

text \<open>
  The entries at which the loop of \<^verbatim>\<open>Get\<close> stops, and what it stops with: a key that
  implements \<open>t\<close> gives its value, the nil key a panic.
\<close>

fun stops :: "'ty reflect \<Rightarrow> 'ty \<Rightarrow> 'ty option \<times> ('ty, 'a) Value \<Rightarrow> bool" where
  "stops R t (None, v) = True"
| "stops R t (Some k, v) = Implements R k t"

fun stop_outcome :: "'ty option \<times> ('ty, 'a) Value \<Rightarrow> ('ty, 'a) Value outcome" where
  "stop_outcome (None, v) = Panic"
| "stop_outcome (Some k, v) = Return v"

text \<open>
  What the interface scan of \<^verbatim>\<open>Get\<close> can end with, over all visiting orders, when the
  exact lookup gave the zero Value.
\<close>

definition scan :: "'ty reflect \<Rightarrow> ('ty option, ('ty, 'a) Value) alist \<Rightarrow> 'ty
    \<Rightarrow> ('ty, 'a) Value outcome set" where
  "scan R vals t =
     (\<lambda>order. if Kind R t = Interface then range_loop R t order Zero else Return Zero) `
        set (range_orders (DAList.impl_of vals))"

text \<open>The outcomes \<^verbatim>\<open>Get\<close> can have.\<close>

abbreviation results :: "'ty reflect \<Rightarrow> ('ty, 'a) injector \<Rightarrow> 'ty option
    \<Rightarrow> ('ty, 'a) Value outcome set" where
  "results R j t \<equiv> fst ` Get R j t"

text \<open>
  The registry has no match of its own for \<open>t\<close>: no entry under \<open>t\<close> and, when \<open>t\<close> is an
  interface type, no key that implements it.
\<close>

definition no_local_match :: "'ty reflect \<Rightarrow> ('ty, 'a) injector \<Rightarrow> 'ty \<Rightarrow> bool" where
  "no_local_match R j t \<longleftrightarrow>
     DAList.lookup (values_of j) (Some t) = None \<and>
     (Kind R t = Interface \<longrightarrow>
        (\<forall>(k, v) \<in> set (DAList.impl_of (values_of j)).
           case k of None \<Rightarrow> True | Some k' \<Rightarrow> \<not> Implements R k' t))"

text \<open>
  The map of the registry holds the nil \<^verbatim>\<open>reflect.Type\<close> as a key, as it does after
  \<^verbatim>\<open>Map(nil)\<close>.
\<close>

definition has_nil_key :: "('ty, 'a) injector \<Rightarrow> bool" where
  "has_nil_key j \<longleftrightarrow> DAList.lookup (values_of j) None \<noteq> None"

text \<open>The registry \<open>n\<close> steps up the chain of parents.\<close>

fun ancestor :: "nat \<Rightarrow> ('ty, 'a) injector \<Rightarrow> ('ty, 'a) injector option" where
  "ancestor 0 j = Some j"
| "ancestor (Suc n) j = (case parent j of None \<Rightarrow> None | Some p \<Rightarrow> ancestor n p)"


section \<open>Visiting orders and the interface scan\<close>

text \<open>\<open>range_orders\<close> lists exactly the permutations of the entries.\<close>

lemma mset_inserts: "ys \<in> set (inserts x xs) \<Longrightarrow> mset ys = add_mset x (mset xs)"
  by (induction xs arbitrary: ys) auto

lemma inserts_complete:
  "mset ys = add_mset x (mset xs) \<Longrightarrow> \<exists>zs. mset zs = mset xs \<and> ys \<in> set (inserts x zs)"
proof (induction ys arbitrary: xs)
  case Nil
  then show ?case by simp
next
  case (Cons y ys)
  show ?case
  proof (cases "y = x")
    case True
    with Cons.prems have "mset ys = mset xs" by simp
    moreover have "y # ys \<in> set (inserts x ys)" using True by (cases ys) auto
    ultimately show ?thesis by blast
  next
    case False
    with Cons.prems have "y \<in># mset xs"
      by (metis insert_noteq_member mset.simps(2))
    then obtain xs' where xs': "mset xs = add_mset y (mset xs')"
      by (metis ex_mset mset_add)
    with Cons.prems have "mset ys = add_mset x (mset xs')"
      by simp
    from Cons.IH[OF this] obtain zs where zs: "mset zs = mset xs'" "ys \<in> set (inserts x zs)"
      by blast
    have "mset (y # zs) = mset xs" using zs xs' by simp
    moreover have "y # ys \<in> set (inserts x (y # zs))" using zs by simp
    ultimately show ?thesis by blast
  qed
qed

lemma set_range_orders: "set (range_orders xs) = {ys. mset ys = mset xs}"
proof (induction xs)
  case Nil
  then show ?case by simp
next
  case (Cons x xs)
  show ?case
  proof (intro set_eqI iffI)
    fix ys assume "ys \<in> set (range_orders (x # xs))"
    then obtain zs where "zs \<in> set (range_orders xs)" "ys \<in> set (inserts x zs)" by auto
    then show "ys \<in> {ys. mset ys = mset (x # xs)}"
      using Cons.IH mset_inserts by fastforce
  next
    fix ys assume "ys \<in> {ys. mset ys = mset (x # xs)}"
    then have "mset ys = add_mset x (mset xs)" by simp
    from inserts_complete[OF this] obtain zs where "mset zs = mset xs" "ys \<in> set (inserts x zs)"
      by blast
    then show "ys \<in> set (range_orders (x # xs))" using Cons.IH by auto
  qed
qed

text \<open>What one pass of the loop ends with, and what all passes can end with.\<close>

lemma range_loop_Cons:
  "range_loop R t (e # rest) val =
     (if stops R t e then stop_outcome e else range_loop R t rest val)"
  by (cases e; cases "fst e") auto

lemma range_loop_miss:
  "\<forall>e \<in> set order. \<not> stops R t e \<Longrightarrow> range_loop R t order val = Return val"
  by (induction order) (simp_all add: range_loop_Cons del: range_loop.simps(2))

lemma range_loop_hit:
  "e0 \<in> set order \<Longrightarrow> stops R t e0 \<Longrightarrow>
   \<exists>e \<in> set order. stops R t e \<and> range_loop R t order val = stop_outcome e"
  by (induction order) (auto simp: range_loop_Cons simp del: range_loop.simps(2))

lemma range_loop_results:
  "(\<lambda>order. range_loop R t order val) ` set (range_orders es) =
     (if \<exists>e \<in> set es. stops R t e
      then stop_outcome ` {e \<in> set es. stops R t e}
      else {Return val})"
proof (cases "\<exists>e \<in> set es. stops R t e")
  case False
  have ne: "es \<in> set (range_orders es)" by (simp add: set_range_orders)
  have "range_loop R t order val = Return val" if "order \<in> set (range_orders es)" for order
  proof -
    from that have "set order = set es" by (simp add: set_range_orders) (metis set_mset_mset)
    with False show ?thesis by (intro range_loop_miss) auto
  qed
  with ne False show ?thesis by (auto simp: image_def)
next
  case True
  have "(\<lambda>order. range_loop R t order val) ` set (range_orders es) =
        stop_outcome ` {e \<in> set es. stops R t e}"
  proof (intro set_eqI iffI)
    fix x assume "x \<in> (\<lambda>order. range_loop R t order val) ` set (range_orders es)"
    then obtain order where o: "order \<in> set (range_orders es)" "x = range_loop R t order val"
      by auto
    then have s: "set order = set es" by (simp add: set_range_orders) (metis set_mset_mset)
    from True obtain e0 where "e0 \<in> set order" "stops R t e0" using s by auto
    from range_loop_hit[OF this, of val] o s
    show "x \<in> stop_outcome ` {e \<in> set es. stops R t e}" by auto
  next
    fix x assume "x \<in> stop_outcome ` {e \<in> set es. stops R t e}"
    then obtain e where e: "e \<in> set es" "stops R t e" "x = stop_outcome e" by auto
    then have "mset (e # remove1 e es) = mset es" by simp
    then have "e # remove1 e es \<in> set (range_orders es)" by (simp add: set_range_orders)
    moreover have "range_loop R t (e # remove1 e es) val = x"
      using e by (simp add: range_loop_Cons del: range_loop.simps(2))
    ultimately show "x \<in> (\<lambda>order. range_loop R t order val) ` set (range_orders es)" by force
  qed
  with True show ?thesis by simp
qed

lemma IsValid_iff: "IsValid v \<longleftrightarrow> v \<noteq> Zero"
  by (cases v) auto

lemma in_impl_of: "(k, v) \<in> set (DAList.impl_of vals) \<longleftrightarrow> DAList.lookup vals k = Some v"
  by (simp add: DAList.lookup.rep_eq)

lemma Get_unfold:
  "Get R (Injector vals par) t =
    (if IsValid (index vals t) then {(Return (index vals t), Injector vals par)}
     else
      (case t of
         None \<Rightarrow> {(Panic, Injector vals par)}
       | Some t' \<Rightarrow>
          (\<Union>r \<in> scan R vals t'.
            (case r of
               Panic \<Rightarrow> {(Panic, Injector vals par)}
             | Return val \<Rightarrow>
                 (case par of
                    Some p \<Rightarrow>
                      if \<not> IsValid val
                      then (\<lambda>(v, p'). (v, Injector vals (Some p'))) ` Get R p t
                      else {(Return val, Injector vals par)}
                  | None \<Rightarrow> {(Return val, Injector vals par)})))))"
proof (cases "IsValid (index vals t)")
  case True
  then show ?thesis by simp
next
  case False
  then have z: "index vals t = Zero" by (simp add: IsValid_iff)
  show ?thesis
  proof (cases t)
    case None
    with z show ?thesis by simp
  next
    case (Some t')
    show ?thesis
      unfolding Some
      by (subst Get.simps)
        (simp only: Let_def z[unfolded Some] IsValid.simps if_False option.case scan_def image_image)
  qed
qed

declare Get.simps [simp del]

lemma Get_frame: "(r, j') \<in> Get R j t \<Longrightarrow> j' = j"
proof (induction j arbitrary: r j')
  case (Injector vals par)
  show ?case
  proof (cases "IsValid (index vals t)")
    case True
    with Injector.prems show ?thesis by (simp add: Get_unfold)
  next
    case False
    show ?thesis
    proof (cases t)
      case None
      with False Injector.prems show ?thesis by (simp add: Get_unfold)
    next
      case (Some t')
      with False Injector.prems obtain s where
        m: "(r, j') \<in> (case s of
               Panic \<Rightarrow> {(Panic, Injector vals par)}
             | Return val \<Rightarrow>
                 (case par of
                    Some p \<Rightarrow>
                      if \<not> IsValid val
                      then (\<lambda>(v, p'). (v, Injector vals (Some p'))) ` Get R p t
                      else {(Return val, Injector vals par)}
                  | None \<Rightarrow> {(Return val, Injector vals par)}))"
        by (auto simp: Get_unfold)
      show ?thesis
      proof (cases s)
        case Panic
        with m show ?thesis by simp
      next
        case (Return val)
        show ?thesis
        proof (cases par)
          case None
          with m Return show ?thesis by simp
        next
          case (Some p)
          show ?thesis
          proof (cases "IsValid val")
            case True
            with m Return Some show ?thesis by simp
          next
            case F: False
            with m Return Some obtain p' where p': "(r, p') \<in> Get R p t" "j' = Injector vals (Some p')"
              by auto
            from Injector.IH[of p r p'] Some p'(1) have "p' = p" by simp
            with p'(2) Some show ?thesis by simp
          qed
        qed
      qed
    qed
  qed
qed

lemma scan_nonempty: "scan R vals t \<noteq> {}"
proof -
  have "DAList.impl_of vals \<in> set (range_orders (DAList.impl_of vals))"
    by (simp add: set_range_orders)
  then have "set (range_orders (DAList.impl_of vals)) \<noteq> {}" by auto
  then show ?thesis unfolding scan_def by simp
qed

lemma scan_not_interface: "Kind R t \<noteq> Interface \<Longrightarrow> scan R vals t = {Return Zero}"
proof -
  assume k: "Kind R t \<noteq> Interface"
  have "DAList.impl_of vals \<in> set (range_orders (DAList.impl_of vals))"
    by (simp add: set_range_orders)
  with k show ?thesis unfolding scan_def by auto
qed

lemma scan_interface:
  "Kind R t = Interface \<Longrightarrow>
   scan R vals t =
     (if \<exists>e \<in> set (DAList.impl_of vals). stops R t e
      then stop_outcome ` {e \<in> set (DAList.impl_of vals). stops R t e}
      else {Return Zero})"
  unfolding scan_def by (simp only: refl if_True range_loop_results)

lemma stops_iff:
  "stops R t e \<longleftrightarrow> fst e = None \<or> (\<exists>k. fst e = Some k \<and> Implements R k t)"
  by (cases e; cases "fst e") auto

text \<open>The scan when the map holds no nil key.\<close>

lemma scan_no_match:
  assumes "Kind R t = Interface \<longrightarrow> DAList.lookup vals None = None"
    and "Kind R t = Interface \<longrightarrow>
           (\<forall>k v. DAList.lookup vals (Some k) = Some v \<longrightarrow> \<not> Implements R k t)"
  shows "scan R vals t = {Return Zero}"
proof (cases "Kind R t = Interface")
  case False
  then show ?thesis by (rule scan_not_interface)
next
  case True
  have "\<not> stops R t e" if "e \<in> set (DAList.impl_of vals)" for e
  proof -
    obtain k v where e: "e = (k, v)" by (cases e)
    with that have l: "DAList.lookup vals k = Some v" by (simp add: in_impl_of)
    show ?thesis
    proof (cases k)
      case None
      with l assms(1) True show ?thesis by simp
    next
      case (Some k')
      with l assms(2) True e show ?thesis by simp
    qed
  qed
  then have "\<not> (\<exists>e \<in> set (DAList.impl_of vals). stops R t e)" by blast
  with True show ?thesis by (simp only: scan_interface if_False)
qed

lemma scan_implementers:
  assumes "Kind R t = Interface" and "DAList.lookup vals None = None"
    and "DAList.lookup vals (Some k0) = Some v0" and "Implements R k0 t"
  shows "scan R vals t =
           {Return v |v. \<exists>k. DAList.lookup vals (Some k) = Some v \<and> Implements R k t}"
proof -
  have "(Some k0, v0) \<in> set (DAList.impl_of vals)" using assms(3) by (simp add: in_impl_of)
  moreover have "stops R t (Some k0, v0)" using assms(4) by simp
  ultimately have ex: "\<exists>e \<in> set (DAList.impl_of vals). stops R t e" by blast
  have "stop_outcome ` {e \<in> set (DAList.impl_of vals). stops R t e} =
        {Return v |v. \<exists>k. DAList.lookup vals (Some k) = Some v \<and> Implements R k t}"
  proof (intro set_eqI iffI)
    fix x assume "x \<in> stop_outcome ` {e \<in> set (DAList.impl_of vals). stops R t e}"
    then obtain k v where e: "(k, v) \<in> set (DAList.impl_of vals)" "stops R t (k, v)"
      "x = stop_outcome (k, v)" by auto
    from e(1) have l: "DAList.lookup vals k = Some v" by (simp add: in_impl_of)
    with assms(2) obtain k' where k': "k = Some k'" by (cases k) auto
    with e l show "x \<in> {Return v |v. \<exists>k. DAList.lookup vals (Some k) = Some v \<and> Implements R k t}"
      by auto
  next
    fix x assume "x \<in> {Return v |v. \<exists>k. DAList.lookup vals (Some k) = Some v \<and> Implements R k t}"
    then obtain v k where "x = Return v" "DAList.lookup vals (Some k) = Some v" "Implements R k t"
      by auto
    then have "(Some k, v) \<in> {e \<in> set (DAList.impl_of vals). stops R t e}"
      "x = stop_outcome (Some k, v)" by (simp_all add: in_impl_of)
    then show "x \<in> stop_outcome ` {e \<in> set (DAList.impl_of vals). stops R t e}" by blast
  qed
  with ex assms(1) show ?thesis by (simp only: scan_interface if_True)
qed

lemma scan_nil_key:
  assumes "Kind R t = Interface" and "DAList.lookup vals None = Some v"
  shows "Panic \<in> scan R vals t"
proof -
  have "(None, v) \<in> set (DAList.impl_of vals)" using assms(2) by (simp add: in_impl_of)
  moreover have "stops R t (None, v)" "stop_outcome (None, v) = Panic" by simp_all
  ultimately have "\<exists>e \<in> set (DAList.impl_of vals). stops R t e"
    and "Panic \<in> stop_outcome ` {e \<in> set (DAList.impl_of vals). stops R t e}" by force+
  with assms(1) show ?thesis by (simp only: scan_interface if_True)
qed


lemma Get_nonempty: "Get R j t \<noteq> {}"
proof (induction j)
  case (Injector vals par)
  show ?case
  proof (cases "IsValid (index vals t)")
    case True
    then show ?thesis by (simp add: Get_unfold)
  next
    case False
    show ?thesis
    proof (cases t)
      case None
      with False show ?thesis by (simp add: Get_unfold)
    next
      case (Some t')
      obtain s where s: "s \<in> scan R vals t'" using scan_nonempty[of R vals t'] by blast
      have "(case s of
               Panic \<Rightarrow> {(Panic, Injector vals par)}
             | Return val \<Rightarrow>
                 (case par of
                    Some p \<Rightarrow>
                      if \<not> IsValid val
                      then (\<lambda>(v, p'). (v, Injector vals (Some p'))) ` Get R p t
                      else {(Return val, Injector vals par)}
                  | None \<Rightarrow> {(Return val, Injector vals par)})) \<noteq> {}"
        using Injector.IH by (auto split: option.splits outcome.splits)
      with False Some s show ?thesis unfolding Get_unfold by auto
    qed
  qed
qed

lemma Get_results: "Get R j t = (\<lambda>r. (r, j)) ` results R j t"
  using Get_frame by force

lemma results_nonempty: "results R j t \<noteq> {}"
  by (simp add: Get_nonempty)

lemma results_nil_type:
  "results R j None =
     (if IsValid (index (values_of j) None) then {Return (index (values_of j) None)} else {Panic})"
  by (cases j) (simp add: Get_unfold)

lemma results_unfold:
  "results R (Injector vals par) (Some t) =
    (if IsValid (index vals (Some t)) then {Return (index vals (Some t))}
     else (scan R vals t - {Return Zero}) \<union>
          (if Return Zero \<in> scan R vals t
           then (case par of Some p \<Rightarrow> results R p (Some t) | None \<Rightarrow> {Return Zero})
           else {}))"
proof (cases "IsValid (index vals (Some t))")
  case True
  then show ?thesis by (simp add: Get_unfold)
next
  case False
  let ?self = "Injector vals par"
  let ?G = "\<lambda>r. case r of
               Panic \<Rightarrow> {(Panic, ?self)}
             | Return val \<Rightarrow>
                 (case par of
                    Some p \<Rightarrow>
                      if \<not> IsValid val
                      then (\<lambda>(v, p'). (v, Injector vals (Some p'))) ` Get R p (Some t)
                      else {(Return val, ?self)}
                  | None \<Rightarrow> {(Return val, ?self)})"
  let ?up = "case par of Some p \<Rightarrow> results R p (Some t) | None \<Rightarrow> {Return Zero}"
  have lift: "fst ` (\<lambda>(v, p'). (v, Injector vals (Some p'))) ` S = fst ` S"
    for S :: "(('a, 'b) Value outcome \<times> ('a, 'b) injector) set"
    by force
  have h: "fst ` ?G r = (if r = Return Zero then ?up else {r})" for r
    by (cases r; cases par) (simp_all add: IsValid_iff lift)
  have "results R ?self (Some t) = fst ` (\<Union>r \<in> scan R vals t. ?G r)"
    unfolding Get_unfold using False by (simp only: if_False option.case)
  also have "\<dots> = (\<Union>r \<in> scan R vals t. fst ` ?G r)"
    by (rule image_UN)
  also have "\<dots> = (\<Union>r \<in> scan R vals t. if r = Return Zero then ?up else {r})"
    by (simp only: h)
  also have "\<dots> = (scan R vals t - {Return Zero}) \<union>
      (if Return Zero \<in> scan R vals t then ?up else {})"
    by (auto split: if_splits)
  finally show ?thesis using False by simp
qed

lemma results_sel:
  "results R j (Some t) =
    (if IsValid (index (values_of j) (Some t)) then {Return (index (values_of j) (Some t))}
     else (scan R (values_of j) t - {Return Zero}) \<union>
          (if Return Zero \<in> scan R (values_of j) t
           then (case parent j of Some p \<Rightarrow> results R p (Some t) | None \<Rightarrow> {Return Zero})
           else {}))"
  by (cases j) (simp only: results_unfold injector.sel)

lemma results_exact:
  assumes "DAList.lookup (values_of j) t = Some v" and "IsValid v"
  shows "results R j t = {Return v}"
  using assms by (cases j) (simp add: Get_unfold index_def)

lemma no_local_match_lookup:
  "no_local_match R j t \<longleftrightarrow>
     DAList.lookup (values_of j) (Some t) = None \<and>
     (Kind R t = Interface \<longrightarrow>
        (\<forall>k v. DAList.lookup (values_of j) (Some k) = Some v \<longrightarrow> \<not> Implements R k t))"
proof -
  have "(\<forall>(k, v) \<in> set (DAList.impl_of (values_of j)).
           case k of None \<Rightarrow> True | Some k' \<Rightarrow> \<not> Implements R k' t) \<longleftrightarrow>
        (\<forall>k v. DAList.lookup (values_of j) (Some k) = Some v \<longrightarrow> \<not> Implements R k t)"
    unfolding in_impl_of[symmetric] by (fastforce split: option.splits)
  then show ?thesis unfolding no_local_match_def by simp
qed

lemma results_delegate:
  assumes "no_local_match R j t" and "Kind R t = Interface \<longrightarrow> \<not> has_nil_key j"
    and "parent j = Some p"
  shows "results R j (Some t) = results R p (Some t)"
proof -
  from assms(1) have i: "index (values_of j) (Some t) = Zero"
    by (simp add: no_local_match_lookup index_def)
  have "scan R (values_of j) t = {Return Zero}"
    using assms(1,2) by (intro scan_no_match) (auto simp: no_local_match_lookup has_nil_key_def)
  with i assms(3) show ?thesis by (subst results_sel) simp
qed

lemma results_ancestor:
  "\<forall>m<n. \<exists>b. ancestor m j = Some b \<and> no_local_match R b t \<and>
             (Kind R t = Interface \<longrightarrow> \<not> has_nil_key b) \<Longrightarrow>
   ancestor n j = Some a \<Longrightarrow>
   results R j (Some t) = results R a (Some t)"
proof (induction n arbitrary: j)
  case 0
  then show ?case by simp
next
  case (Suc n)
  from Suc.prems(2) obtain p where p: "parent j = Some p" "ancestor n p = Some a"
    by (auto split: option.splits)
  from Suc.prems(1) have "\<exists>b. ancestor 0 j = Some b \<and> no_local_match R b t \<and>
             (Kind R t = Interface \<longrightarrow> \<not> has_nil_key b)" by blast
  then have m0: "no_local_match R j t" "Kind R t = Interface \<longrightarrow> \<not> has_nil_key j" by simp_all
  have "\<forall>m<n. \<exists>b. ancestor m p = Some b \<and> no_local_match R b t \<and>
             (Kind R t = Interface \<longrightarrow> \<not> has_nil_key b)"
  proof (intro allI impI)
    fix m assume "m < n"
    then have "Suc m < Suc n" by simp
    with Suc.prems(1) obtain b where "ancestor (Suc m) j = Some b" "no_local_match R b t"
      "Kind R t = Interface \<longrightarrow> \<not> has_nil_key b" by blast
    with p show "\<exists>b. ancestor m p = Some b \<and> no_local_match R b t \<and>
             (Kind R t = Interface \<longrightarrow> \<not> has_nil_key b)" by simp
  qed
  from Suc.IH[OF this p(2)] results_delegate[OF m0 p(1)] show ?case by simp
qed

lemma results_implementers:
  assumes "\<not> IsValid (index (values_of j) (Some t))" and "Kind R t = Interface"
    and "\<not> has_nil_key j"
    and "DAList.lookup (values_of j) (Some k0) = Some v0" and "Implements R k0 t"
    and "\<forall>k v. DAList.lookup (values_of j) (Some k) = Some v \<and> Implements R k t \<longrightarrow> IsValid v"
  shows "results R j (Some t) =
           {Return v |v. \<exists>k. DAList.lookup (values_of j) (Some k) = Some v \<and> Implements R k t}"
proof -
  from assms(3) have n: "DAList.lookup (values_of j) None = None" by (simp add: has_nil_key_def)
  have s: "scan R (values_of j) t =
      {Return v |v. \<exists>k. DAList.lookup (values_of j) (Some k) = Some v \<and> Implements R k t}"
    by (rule scan_implementers[OF assms(2) n assms(4,5)])
  have z: "Return Zero \<notin> scan R (values_of j) t"
    using assms(6) unfolding s by (auto simp: IsValid_iff)
  then have "scan R (values_of j) t - {Return Zero} = scan R (values_of j) t" by blast
  with assms(1) z have "results R j (Some t) = scan R (values_of j) t"
    by (subst results_sel) simp
  with s show ?thesis by (simp only:)
qed

lemma results_single_implementer:
  assumes "Kind R t = Interface" and "DAList.lookup (values_of j) (Some t) = None"
    and "\<not> has_nil_key j"
    and "DAList.lookup (values_of j) (Some k) = Some v" and "Implements R k t"
    and "\<forall>k' v'. DAList.lookup (values_of j) (Some k') = Some v' \<and> Implements R k' t \<longrightarrow> k' = k"
    and "parent j = None"
  shows "results R j (Some t) = {Return v}"
proof -
  have i: "\<not> IsValid (index (values_of j) (Some t))" using assms(2) by (simp add: index_def)
  from assms(3) have n: "DAList.lookup (values_of j) None = None" by (simp add: has_nil_key_def)
  have "scan R (values_of j) t =
      {Return v |v. \<exists>k. DAList.lookup (values_of j) (Some k) = Some v \<and> Implements R k t}"
    by (rule scan_implementers[OF assms(1) n assms(4,5)])
  also have "\<dots> = {Return v}" using assms(4,5,6) by force
  finally have s: "scan R (values_of j) t = {Return v}" .
  show ?thesis
  proof (cases "v = Zero")
    case True
    with i s assms(7) show ?thesis by (subst results_sel) simp
  next
    case False
    with i s show ?thesis by (subst results_sel) simp
  qed
qed

lemma results_nil_key_panics:
  assumes "\<not> IsValid (index (values_of j) (Some t))" and "Kind R t = Interface"
    and "has_nil_key j"
  shows "Panic \<in> results R j (Some t)"
proof -
  from assms(3) obtain v where "DAList.lookup (values_of j) None = Some v"
    by (auto simp: has_nil_key_def)
  from scan_nil_key[OF assms(2) this] have "Panic \<in> scan R (values_of j) t - {Return Zero}"
    by simp
  with assms(1) show ?thesis by (subst results_sel) simp
qed

lemma index_update: "index (DAList.update k v m) t = (if t = k then v else index m t)"
  by (simp add: index_def DAList.lookup_update)

section \<open>Evaluation on concrete registries\<close>

lemma go_sel:
  "Kind go = ty_Kind" "Elem go = ty_Elem" "Implements go = ty_Implements"
  "AssignableTo go = ty_AssignableTo"
  by (simp_all add: go_def)

lemmas eval_simps =
  Get.simps index_def DAList.lookup.rep_eq DAList.update.rep_eq DAList.empty.rep_eq
  New_def Set_def Map_def SetParent_def has_nil_key_def go_def Let_def

section \<open>Set followed by Get\<close>

text \<open>
  C6, as the code has it: for every type \<open>T\<close> (the nil \<^verbatim>\<open>reflect.Type\<close> included) and every
  valid value \<open>v\<close> (one for which \<^verbatim>\<open>IsValid\<close> holds), immediately after \<^verbatim>\<open>Set(T, v)\<close> the call
  \<^verbatim>\<open>Get(T)\<close> returns exactly \<open>v\<close> and nothing else, without a panic, whatever the other
  entries, the type universe and the parent chain are: neither the interface scan nor the
  parent takes part.
\<close>

theorem Get_after_Set_valid:
  "IsValid v \<Longrightarrow> Get R (Set j T v) T = {(Return v, Set j T v)}"
  by (simp add: Set_def Get_unfold index_update)

theorem Get_after_Set_valid_witness:
  "IsValid (ValueOf T_string ''a'') \<and>
   Get go (Set New (Some T_string) (ValueOf T_string ''a'')) (Some T_string) =
     {(Return (ValueOf T_string ''a''), Set New (Some T_string) (ValueOf T_string ''a''))}"
  using Get_after_Set_valid [of "ValueOf T_string ''a''" go New "Some T_string"] by simp

text \<open>
  C6 as stated, for all values, fails at the zero Value: after
  \<^verbatim>\<open>child.Set(string, reflect.Value{})\<close> on a registry whose parent holds \<^verbatim>\<open>"parent"\<close> for
  \<^verbatim>\<open>string\<close>, \<^verbatim>\<open>child.Get(string)\<close> takes the entry for absent and returns the parent's
  value.
\<close>

theorem Get_after_Set_zero_counterexample:
  "fst ` Get go
      (Set (SetParent New (Some (Set New (Some T_string) (ValueOf T_string ''parent''))))
         (Some T_string) Zero)
      (Some T_string) = {Return (ValueOf T_string ''parent'')} \<and>
   fst ` Get go
      (Set (SetParent New (Some (Set New (Some T_string) (ValueOf T_string ''parent''))))
         (Some T_string) Zero)
      (Some T_string) \<noteq> {Return Zero}"
  by (simp add: eval_simps)

text \<open>A list without repetitions holds each of its elements once.\<close>

lemma distinct_count_one:
  "distinct xs \<Longrightarrow> x \<in> set xs \<Longrightarrow> length (filter (\<lambda>k. k = x) xs) = 1"
proof (induction xs)
  case Nil
  then show ?case by simp
next
  case (Cons a xs)
  show ?case
  proof (cases "a = x")
    case True
    with Cons.prems have "x \<notin> set xs" by simp
    then have "filter (\<lambda>k. k = x) xs = []" by (auto simp: filter_empty_conv)
    with True show ?thesis by simp
  next
    case False
    with Cons show ?thesis by simp
  qed
qed

text \<open>
  C7, as the code has it: for every type \<open>T\<close>, every value \<open>v1\<close> and every valid value
  \<open>v2\<close>, after \<^verbatim>\<open>Set(T, v1)\<close> followed by \<^verbatim>\<open>Set(T, v2)\<close> the call \<^verbatim>\<open>Get(T)\<close> returns exactly
  \<open>v2\<close>; the second registration overwrites the first, the map holds \<open>v2\<close> under \<open>T\<close>, its
  keys are pairwise distinct and exactly one entry has the key \<open>T\<close>.
\<close>

theorem Set_twice_valid:
  "IsValid v2 \<Longrightarrow>
     Get R (Set (Set j T v1) T v2) T = {(Return v2, Set (Set j T v1) T v2)} \<and>
     DAList.lookup (values_of (Set (Set j T v1) T v2)) T = Some v2 \<and>
     distinct (map fst (DAList.impl_of (values_of (Set (Set j T v1) T v2)))) \<and>
     length (filter (\<lambda>(k, v). k = T) (DAList.impl_of (values_of (Set (Set j T v1) T v2)))) = 1"
proof -
  assume v2: "IsValid v2"
  let ?j = "Set (Set j T v1) T v2"
  have g: "Get R ?j T = {(Return v2, ?j)}"
    using v2 by (simp add: Set_def Get_unfold index_update)
  have l: "DAList.lookup (values_of ?j) T = Some v2"
    by (simp add: Set_def)
  have d: "distinct (map fst (DAList.impl_of (values_of ?j)))"
    by (rule DAList.impl_of_distinct)
  have "(T, v2) \<in> set (DAList.impl_of (values_of ?j))"
    using l by (simp add: in_impl_of)
  then have "T \<in> set (map fst (DAList.impl_of (values_of ?j)))" by force
  with d have "length (filter (\<lambda>k. k = T) (map fst (DAList.impl_of (values_of ?j)))) = 1"
    by (rule distinct_count_one)
  then have "length (filter (\<lambda>(k, v). k = T) (DAList.impl_of (values_of ?j))) = 1"
    by (simp add: filter_map comp_def case_prod_unfold)
  with g l d show ?thesis by blast
qed

theorem Set_twice_valid_witness:
  "IsValid (ValueOf T_string ''b'') \<and>
   Get go (Set (Set New (Some T_string) (ValueOf T_string ''a'')) (Some T_string)
             (ValueOf T_string ''b'')) (Some T_string) =
     {(Return (ValueOf T_string ''b''),
       Set (Set New (Some T_string) (ValueOf T_string ''a'')) (Some T_string)
         (ValueOf T_string ''b''))} \<and>
   DAList.impl_of (values_of (Set (Set New (Some T_string) (ValueOf T_string ''a''))
      (Some T_string) (ValueOf T_string ''b'')))
     = [(Some T_string, ValueOf T_string ''b'')]"
  using Set_twice_valid [of "ValueOf T_string ''b''" go New "Some T_string" "ValueOf T_string ''a''"]
  by (simp add: eval_simps)

text \<open>
  C7 as stated, for all values, fails when the second value is the zero Value: with a
  parent that holds \<^verbatim>\<open>"0"\<close> for \<^verbatim>\<open>int\<close>, after \<^verbatim>\<open>Set(int, "1")\<close> and
  \<^verbatim>\<open>Set(int, reflect.Value{})\<close> the call \<^verbatim>\<open>Get(int)\<close> returns the parent's value, not the
  value registered last.
\<close>

theorem Set_twice_zero_counterexample:
  "fst ` Get go
      (Set (Set (SetParent New (Some (Set New (Some T_int) (ValueOf T_int ''0''))))
              (Some T_int) (ValueOf T_int ''1''))
         (Some T_int) Zero)
      (Some T_int) = {Return (ValueOf T_int ''0'')} \<and>
   fst ` Get go
      (Set (Set (SetParent New (Some (Set New (Some T_int) (ValueOf T_int ''0''))))
              (Some T_int) (ValueOf T_int ''1''))
         (Some T_int) Zero)
      (Some T_int) \<noteq> {Return Zero}"
  by (simp add: eval_simps)

section \<open>The parent chain\<close>

text \<open>
  C4, as the code has it, for a requested type \<open>t\<close> that is not the nil \<^verbatim>\<open>reflect.Type\<close>.
  (1) A registry with a parent that has no entry of its own for \<open>t\<close> and, when \<open>t\<close> is an
  interface type, neither a key implementing it nor the nil key, returns what its parent
  returns. (2) The fallback is transitive: when the first \<open>n\<close> registries of the chain
  are such, \<^verbatim>\<open>Get\<close> returns what the registry \<open>n\<close> steps up returns, for every \<open>n\<close>. (3) A
  local exact entry with a valid value is what \<^verbatim>\<open>Get\<close> returns, whatever the ancestors
  hold. (4) With no valid exact entry, for an interface type with at least one local
  implementer, all local implementers holding valid values and no nil key in the local
  map, \<^verbatim>\<open>Get\<close> returns one of the local implementers' values (any of them), whatever the
  ancestors hold.
\<close>

theorem Get_parent_fallback:
  "(parent c = Some p \<and> no_local_match R c t \<and> (Kind R t = Interface \<longrightarrow> \<not> has_nil_key c)
      \<longrightarrow> fst ` Get R c (Some t) = fst ` Get R p (Some t)) \<and>
   ((\<forall>m<n. \<exists>b. ancestor m c = Some b \<and> no_local_match R b t \<and>
                (Kind R t = Interface \<longrightarrow> \<not> has_nil_key b)) \<and>
    ancestor n c = Some a
      \<longrightarrow> fst ` Get R c (Some t) = fst ` Get R a (Some t)) \<and>
   (DAList.lookup (values_of c) T = Some v \<and> IsValid v \<longrightarrow> fst ` Get R c T = {Return v}) \<and>
   (\<not> IsValid (index (values_of c) (Some t)) \<and> Kind R t = Interface \<and> \<not> has_nil_key c \<and>
    (\<exists>k v. DAList.lookup (values_of c) (Some k) = Some v \<and> Implements R k t) \<and>
    (\<forall>k v. DAList.lookup (values_of c) (Some k) = Some v \<and> Implements R k t \<longrightarrow> IsValid v)
      \<longrightarrow> fst ` Get R c (Some t) =
            {Return v |v. \<exists>k. DAList.lookup (values_of c) (Some k) = Some v \<and> Implements R k t})"
proof (intro conjI impI)
  assume "parent c = Some p \<and> no_local_match R c t \<and>
    (Kind R t = Interface \<longrightarrow> \<not> has_nil_key c)"
  then show "fst ` Get R c (Some t) = fst ` Get R p (Some t)"
    by (intro results_delegate) simp_all
next
  assume "(\<forall>m<n. \<exists>b. ancestor m c = Some b \<and> no_local_match R b t \<and>
                (Kind R t = Interface \<longrightarrow> \<not> has_nil_key b)) \<and>
    ancestor n c = Some a"
  then show "fst ` Get R c (Some t) = fst ` Get R a (Some t)"
    by (intro results_ancestor[of n c R t a]) simp_all
next
  assume "DAList.lookup (values_of c) T = Some v \<and> IsValid v"
  then show "fst ` Get R c T = {Return v}" by (simp add: results_exact)
next
  assume a: "\<not> IsValid (index (values_of c) (Some t)) \<and> Kind R t = Interface \<and>
    \<not> has_nil_key c \<and>
    (\<exists>k v. DAList.lookup (values_of c) (Some k) = Some v \<and> Implements R k t) \<and>
    (\<forall>k v. DAList.lookup (values_of c) (Some k) = Some v \<and> Implements R k t \<longrightarrow> IsValid v)"
  then obtain k0 v0 where k0: "DAList.lookup (values_of c) (Some k0) = Some v0" "Implements R k0 t"
    by blast
  from a have a1: "\<not> IsValid (index (values_of c) (Some t))" and a2: "Kind R t = Interface"
    and a0: "\<not> has_nil_key c"
    and a3: "\<forall>k v. DAList.lookup (values_of c) (Some k) = Some v \<and> Implements R k t \<longrightarrow> IsValid v"
    by simp_all
  show "fst ` Get R c (Some t) =
     {Return v |v. \<exists>k. DAList.lookup (values_of c) (Some k) = Some v \<and> Implements R k t}"
    by (rule results_implementers[OF a1 a2 a0 k0 a3])
qed

theorem Get_parent_fallback_witness:
  "no_local_match go (SetParent New (Some (SetParent New (Some (Set New (Some Stringer) (ValueOf (PointerTo Greeter) ''g'')))))) Stringer \<and>
   no_local_match go (SetParent New (Some (Set New (Some Stringer) (ValueOf (PointerTo Greeter) ''g'')))) Stringer \<and>
   \<not> has_nil_key (SetParent New (Some (SetParent New (Some (Set New (Some Stringer) (ValueOf (PointerTo Greeter) ''g'')))))) \<and>
   \<not> has_nil_key (SetParent New (Some (Set New (Some Stringer) (ValueOf (PointerTo Greeter) ''g'')))) \<and>
   ancestor (Suc (Suc 0)) (SetParent New (Some (SetParent New (Some (Set New (Some Stringer) (ValueOf (PointerTo Greeter) ''g''))))))
     = Some (Set New (Some Stringer) (ValueOf (PointerTo Greeter) ''g'')) \<and>
   fst ` Get go (SetParent New (Some (SetParent New (Some (Set New (Some Stringer) (ValueOf (PointerTo Greeter) ''g'')))))) (Some Stringer)
     = fst ` Get go (Set New (Some Stringer) (ValueOf (PointerTo Greeter) ''g'')) (Some Stringer) \<and>
   fst ` Get go (SetParent New (Some (Set New (Some Stringer) (ValueOf (PointerTo Greeter) ''g'')))) (Some Stringer)
     = {Return (ValueOf (PointerTo Greeter) ''g'')} \<and>
   fst ` Get go (Set (SetParent New (Some (Set New (Some T_string) (ValueOf T_string ''p'')))) (Some T_string) (ValueOf T_string ''c'')) (Some T_string)
     = {Return (ValueOf T_string ''c'')} \<and>
   fst ` Get go (Set (SetParent New (Some (Set New (Some SpecialString) (ValueOf T_string ''p'')))) (Some T_string) (ValueOf T_string ''c'')) (Some SpecialString)
     = {Return (ValueOf T_string ''c'')}"
proof -
  let ?grand = "Set New (Some Stringer) (ValueOf (PointerTo Greeter) ''g'') :: (ty, string) injector"
  let ?mid = "SetParent New (Some ?grand)"
  let ?child = "SetParent New (Some ?mid)"
  have m1: "no_local_match go ?child Stringer" and m2: "no_local_match go ?mid Stringer"
    by (simp_all add: no_local_match_def eval_simps)
  have n1: "\<not> has_nil_key ?child" and n2: "\<not> has_nil_key ?mid"
    by (simp_all add: eval_simps)
  have a: "ancestor (Suc (Suc 0)) ?child = Some ?grand"
    by (simp add: eval_simps)
  have h1: "(\<forall>m<Suc (Suc 0). \<exists>b. ancestor m ?child = Some b \<and> no_local_match go b Stringer \<and>
      (Kind go Stringer = Interface \<longrightarrow> \<not> has_nil_key b)) \<and>
      ancestor (Suc (Suc 0)) ?child = Some ?grand"
    using m1 m2 n1 n2 a by (simp add: less_Suc_eq SetParent_def all_conj_distrib)
  have c1: "fst ` Get go ?child (Some Stringer) = fst ` Get go ?grand (Some Stringer)"
    by (rule mp[OF conjunct1[OF conjunct2[OF
          Get_parent_fallback [of ?child ?mid go Stringer "Suc (Suc 0)" ?grand]]] h1])
  have h0: "parent ?mid = Some ?grand \<and> no_local_match go ?mid Stringer \<and>
      (Kind go Stringer = Interface \<longrightarrow> \<not> has_nil_key ?mid)"
    using m2 n2 by (simp add: SetParent_def)
  have "fst ` Get go ?mid (Some Stringer) = fst ` Get go ?grand (Some Stringer)"
    by (rule mp[OF conjunct1[OF Get_parent_fallback [of ?mid ?grand go Stringer]] h0])
  also have "\<dots> = {Return (ValueOf (PointerTo Greeter) ''g'')}" by (simp add: eval_simps)
  finally have c0: "fst ` Get go ?mid (Some Stringer) = {Return (ValueOf (PointerTo Greeter) ''g'')}" .
  let ?c2 = "Set (SetParent New (Some (Set New (Some T_string) (ValueOf T_string ''p''))))
      (Some T_string) (ValueOf T_string ''c'') :: (ty, string) injector"
  have h2: "DAList.lookup (values_of ?c2) (Some T_string) = Some (ValueOf T_string ''c'') \<and>
      IsValid (ValueOf T_string ''c'' :: (ty, string) Value)"
    by (simp add: eval_simps)
  have c2: "fst ` Get go ?c2 (Some T_string) = {Return (ValueOf T_string ''c'')}"
    by (rule mp[OF conjunct1[OF conjunct2[OF conjunct2[OF
          Get_parent_fallback [of ?c2 _ go _ _ _ "Some T_string" "ValueOf T_string ''c''"]]]] h2])
  let ?c3 = "Set (SetParent New (Some (Set New (Some SpecialString) (ValueOf T_string ''p''))))
      (Some T_string) (ValueOf T_string ''c'') :: (ty, string) injector"
  have h3: "\<not> IsValid (index (values_of ?c3) (Some SpecialString)) \<and>
    Kind go SpecialString = Interface \<and> \<not> has_nil_key ?c3 \<and>
    (\<exists>k v. DAList.lookup (values_of ?c3) (Some k) = Some v \<and> Implements go k SpecialString) \<and>
    (\<forall>k v. DAList.lookup (values_of ?c3) (Some k) = Some v \<and> Implements go k SpecialString
        \<longrightarrow> IsValid v)"
    by (auto simp: eval_simps split: if_splits)
  have "fst ` Get go ?c3 (Some SpecialString) =
     {Return v |v. \<exists>k. DAList.lookup (values_of ?c3) (Some k) = Some v \<and> Implements go k SpecialString}"
    by (rule mp[OF conjunct2[OF conjunct2[OF conjunct2[OF
          Get_parent_fallback [of ?c3 _ go SpecialString]]]] h3])
  also have "\<dots> = {Return (ValueOf T_string ''c'')}"
    by (auto simp: eval_simps split: if_splits)
  finally have c3: "fst ` Get go ?c3 (Some SpecialString) = {Return (ValueOf T_string ''c'')}" .
  show ?thesis
    by (intro conjI m1 m2 n1 n2 a c1 c0 c2 c3)
qed

text \<open>
  C4 as stated fails in two ways. A local match whose value is the zero Value does not
  win: a child that holds the zero Value under \<^verbatim>\<open>SpecialString\<close> (as after
  \<^verbatim>\<open>MapTo(nil, (*SpecialString)(nil))\<close>) has a local exact entry, and its key implements
  the requested interface, yet \<^verbatim>\<open>Get\<close> returns the entry of the parent. And a child
  without any match of its own does not always delegate: after \<^verbatim>\<open>child.Map(nil)\<close> the
  child's map holds the nil \<^verbatim>\<open>reflect.Type\<close> as a key, and \<^verbatim>\<open>child.Get\<close> of the interface
  \<^verbatim>\<open>fmt.Stringer\<close> panics in the scan (\<^verbatim>\<open>k.Implements(t)\<close> on the nil key) although the parent
  holds a value for \<^verbatim>\<open>fmt.Stringer\<close>.
\<close>

theorem Get_local_zero_entry_counterexample:
  "DAList.lookup
     (values_of (Set (SetParent New (Some (Set New (Some SpecialString) (ValueOf T_string ''p''))))
        (Some SpecialString) Zero))
     (Some SpecialString) = Some Zero \<and>
   fst ` Get go (Set (SetParent New (Some (Set New (Some SpecialString) (ValueOf T_string ''p''))))
       (Some SpecialString) Zero)
     (Some SpecialString) = {Return (ValueOf T_string ''p'')} \<and>
   parent (Map (SetParent New (Some (Set New (Some Stringer) (ValueOf (PointerTo Greeter) ''p'')))) Zero)
     = Some (Set New (Some Stringer) (ValueOf (PointerTo Greeter) ''p'')) \<and>
   no_local_match go
     (Map (SetParent New (Some (Set New (Some Stringer) (ValueOf (PointerTo Greeter) ''p'')))) Zero)
     Stringer \<and>
   fst ` Get go (Set New (Some Stringer) (ValueOf (PointerTo Greeter) ''p'')) (Some Stringer)
     = {Return (ValueOf (PointerTo Greeter) ''p'')} \<and>
   fst ` Get go
     (Map (SetParent New (Some (Set New (Some Stringer) (ValueOf (PointerTo Greeter) ''p'')))) Zero)
     (Some Stringer) = {Panic}"
  by (simp add: no_local_match_def eval_simps)

section \<open>The interface scan\<close>

text \<open>
  C5, as the code has it. For every interface type \<open>t\<close> with no exact entry in the local
  map, and a local map without the nil key: (1) if at least one stored key implements \<open>t\<close>
  and every value stored under an implementing key is valid, \<^verbatim>\<open>Get(t)\<close> returns a value
  without a panic, every value it can return is valid and stored under a key that
  implements \<open>t\<close>, and each such stored value can be the one returned; (2) if exactly one
  stored key implements \<open>t\<close> and the registry has no parent, \<^verbatim>\<open>Get(t)\<close> returns exactly the
  value stored under that key.
\<close>

theorem Get_interface_fallback:
  "(Kind R t = Interface \<and> DAList.lookup (values_of j) (Some t) = None \<and> \<not> has_nil_key j \<and>
    (\<exists>k v. DAList.lookup (values_of j) (Some k) = Some v \<and> Implements R k t) \<and>
    (\<forall>k v. DAList.lookup (values_of j) (Some k) = Some v \<and> Implements R k t \<longrightarrow> IsValid v)
    \<longrightarrow> fst ` Get R j (Some t) \<noteq> {} \<and>
        (\<forall>r \<in> fst ` Get R j (Some t).
           \<exists>v. r = Return v \<and> IsValid v \<and>
               (\<exists>k. DAList.lookup (values_of j) (Some k) = Some v \<and> Implements R k t)) \<and>
        (\<forall>k v. DAList.lookup (values_of j) (Some k) = Some v \<and> Implements R k t
           \<longrightarrow> Return v \<in> fst ` Get R j (Some t))) \<and>
   (Kind R t = Interface \<and> DAList.lookup (values_of j) (Some t) = None \<and> \<not> has_nil_key j \<and>
    DAList.lookup (values_of j) (Some k) = Some v \<and> Implements R k t \<and>
    (\<forall>k' v'. DAList.lookup (values_of j) (Some k') = Some v' \<and> Implements R k' t \<longrightarrow> k' = k) \<and>
    parent j = None
    \<longrightarrow> fst ` Get R j (Some t) = {Return v})"
proof (intro conjI impI)
  assume a: "Kind R t = Interface \<and> DAList.lookup (values_of j) (Some t) = None \<and>
    \<not> has_nil_key j \<and>
    (\<exists>k v. DAList.lookup (values_of j) (Some k) = Some v \<and> Implements R k t) \<and>
    (\<forall>k v. DAList.lookup (values_of j) (Some k) = Some v \<and> Implements R k t \<longrightarrow> IsValid v)"
  then obtain k0 v0 where k0: "DAList.lookup (values_of j) (Some k0) = Some v0" "Implements R k0 t"
    by blast
  from a have a1: "\<not> IsValid (index (values_of j) (Some t))" by (simp add: index_def)
  from a have a2: "Kind R t = Interface" and a0: "\<not> has_nil_key j"
    and a3: "\<forall>k v. DAList.lookup (values_of j) (Some k) = Some v \<and> Implements R k t \<longrightarrow> IsValid v"
    by simp_all
  have r: "fst ` Get R j (Some t) =
      {Return v |v. \<exists>k. DAList.lookup (values_of j) (Some k) = Some v \<and> Implements R k t}"
    by (rule results_implementers[OF a1 a2 a0 k0 a3])
  show "fst ` Get R j (Some t) \<noteq> {}" by (rule results_nonempty)
  show "\<forall>r \<in> fst ` Get R j (Some t).
           \<exists>v. r = Return v \<and> IsValid v \<and>
               (\<exists>k. DAList.lookup (values_of j) (Some k) = Some v \<and> Implements R k t)"
    unfolding r using a3 by blast
  show "\<forall>k v. DAList.lookup (values_of j) (Some k) = Some v \<and> Implements R k t
           \<longrightarrow> Return v \<in> fst ` Get R j (Some t)"
    unfolding r by blast
next
  assume "Kind R t = Interface \<and> DAList.lookup (values_of j) (Some t) = None \<and>
    \<not> has_nil_key j \<and>
    DAList.lookup (values_of j) (Some k) = Some v \<and> Implements R k t \<and>
    (\<forall>k' v'. DAList.lookup (values_of j) (Some k') = Some v' \<and> Implements R k' t \<longrightarrow> k' = k) \<and>
    parent j = None"
  then show "fst ` Get R j (Some t) = {Return v}"
    by (intro results_single_implementer[of R t j k v]) simp_all
qed

theorem Get_interface_fallback_witness:
  "Return (ValueOf T_string ''a'')
     \<in> fst ` Get go (Set (Set New (Some T_string) (ValueOf T_string ''a'')) (Some T_int) (ValueOf T_int ''1'')) (Some SpecialString) \<and>
   Return (ValueOf T_int ''1'')
     \<in> fst ` Get go (Set (Set New (Some T_string) (ValueOf T_string ''a'')) (Some T_int) (ValueOf T_int ''1'')) (Some SpecialString) \<and>
   fst ` Get go (Set New (Some (PointerTo Greeter)) (ValueOf (PointerTo Greeter) ''Jeremy'')) (Some Stringer)
     = {Return (ValueOf (PointerTo Greeter) ''Jeremy'')}"
proof -
  let ?j = "Set (Set New (Some T_string) (ValueOf T_string ''a'')) (Some T_int) (ValueOf T_int ''1'')
     :: (ty, string) injector"
  have h: "Kind go SpecialString = Interface \<and>
    DAList.lookup (values_of ?j) (Some SpecialString) = None \<and> \<not> has_nil_key ?j \<and>
    (\<exists>k v. DAList.lookup (values_of ?j) (Some k) = Some v \<and> Implements go k SpecialString) \<and>
    (\<forall>k v. DAList.lookup (values_of ?j) (Some k) = Some v \<and> Implements go k SpecialString
       \<longrightarrow> IsValid v)"
    by (auto simp: eval_simps split: if_splits)
  have l: "DAList.lookup (values_of ?j) (Some T_string) = Some (ValueOf T_string ''a'')"
    "DAList.lookup (values_of ?j) (Some T_int) = Some (ValueOf T_int ''1'')"
    "Implements go T_string SpecialString" "Implements go T_int SpecialString"
    by (simp_all add: eval_simps)
  from Get_interface_fallback [of go SpecialString ?j] h
  have "\<forall>k v. DAList.lookup (values_of ?j) (Some k) = Some v \<and> Implements go k SpecialString
           \<longrightarrow> Return v \<in> fst ` Get go ?j (Some SpecialString)" by blast
  with l have p1: "Return (ValueOf T_string ''a'') \<in> fst ` Get go ?j (Some SpecialString)"
    "Return (ValueOf T_int ''1'') \<in> fst ` Get go ?j (Some SpecialString)" by blast+
  let ?g = "Set New (Some (PointerTo Greeter)) (ValueOf (PointerTo Greeter) ''Jeremy'')
     :: (ty, string) injector"
  have "Kind go Stringer = Interface \<and> DAList.lookup (values_of ?g) (Some Stringer) = None \<and>
    \<not> has_nil_key ?g \<and>
    DAList.lookup (values_of ?g) (Some (PointerTo Greeter)) = Some (ValueOf (PointerTo Greeter) ''Jeremy'') \<and>
    Implements go (PointerTo Greeter) Stringer \<and>
    (\<forall>k' v'. DAList.lookup (values_of ?g) (Some k') = Some v' \<and> Implements go k' Stringer
        \<longrightarrow> k' = PointerTo Greeter) \<and>
    parent ?g = None"
    by (auto simp: eval_simps split: if_splits)
  with Get_interface_fallback [of go Stringer ?g "PointerTo Greeter" "ValueOf (PointerTo Greeter) ''Jeremy''"]
  have p2: "fst ` Get go ?g (Some Stringer) = {Return (ValueOf (PointerTo Greeter) ''Jeremy'')}" by blast
  from p1 p2 show ?thesis by blast
qed

text \<open>
  C5 as stated promises a valid result whenever some stored key implements the interface.
  It fails when the implementing key holds the zero Value: with only \<^verbatim>\<open>*Greeter\<close> stored,
  holding \<^verbatim>\<open>reflect.Value{}\<close>, \<^verbatim>\<open>Get(fmt.Stringer)\<close> returns the zero Value. It also fails
  when the map holds the nil \<^verbatim>\<open>reflect.Type\<close> as a key, as after \<^verbatim>\<open>Map(nil)\<close>: with
  \<^verbatim>\<open>*Greeter\<close> stored, holding a valid value, \<^verbatim>\<open>Get(fmt.Stringer)\<close> returns that value when
  the scan meets \<^verbatim>\<open>*Greeter\<close> first and panics when it meets the nil key first.
\<close>

theorem Get_interface_zero_counterexample:
  "Kind go Stringer = Interface \<and>
   DAList.lookup (values_of (Set New (Some (PointerTo Greeter)) Zero)) (Some Stringer) = None \<and>
   DAList.lookup (values_of (Set New (Some (PointerTo Greeter)) Zero)) (Some (PointerTo Greeter))
     = Some Zero \<and>
   Implements go (PointerTo Greeter) Stringer \<and>
   fst ` Get go (Set New (Some (PointerTo Greeter)) Zero) (Some Stringer) = {Return Zero} \<and>
   \<not> IsValid Zero \<and>
   DAList.lookup
     (values_of (Map (Set New (Some (PointerTo Greeter)) (ValueOf (PointerTo Greeter) ''Jeremy'')) Zero))
     (Some Stringer) = None \<and>
   DAList.lookup
     (values_of (Map (Set New (Some (PointerTo Greeter)) (ValueOf (PointerTo Greeter) ''Jeremy'')) Zero))
     (Some (PointerTo Greeter)) = Some (ValueOf (PointerTo Greeter) ''Jeremy'') \<and>
   IsValid (ValueOf (PointerTo Greeter) ''Jeremy'') \<and>
   fst ` Get go
     (Map (Set New (Some (PointerTo Greeter)) (ValueOf (PointerTo Greeter) ''Jeremy'')) Zero)
     (Some Stringer) = {Panic, Return (ValueOf (PointerTo Greeter) ''Jeremy'')}"
  by (simp add: eval_simps insert_commute)

section \<open>InterfaceOf and MapTo\<close>

text \<open>When the pointer chain of a type ends, the loop of \<^verbatim>\<open>InterfaceOf\<close> returns there.\<close>

lemma InterfaceOf_loop_unwraps:
  "unwraps_to R t u \<Longrightarrow>
   InterfaceOf_loop R t = Some (if Kind R u \<noteq> Interface then Panic else Return u)"
proof (induction rule: unwraps_to.induct)
  case (unwraps_here t)
  then show ?case by (subst InterfaceOf_loop.simps) simp
next
  case (unwraps_step t u)
  then show ?case by (subst InterfaceOf_loop.simps) simp
qed

text \<open>
  C9, as the code has it. \<^verbatim>\<open>InterfaceOf\<close> and \<^verbatim>\<open>MapTo\<close> panic for the nil hint and for
  every hint whose type, after unwrapping all pointer indirections, is not an interface
  type. For every hint whose type unwraps to an interface type \<open>u\<close>, \<^verbatim>\<open>InterfaceOf\<close>
  returns \<open>u\<close> and \<^verbatim>\<open>MapTo(v, hint)\<close> stores \<open>v\<close> under the key \<open>u\<close>, as \<^verbatim>\<open>Set(u, v)\<close> does;
  when \<open>v\<close> is valid (not the nil interface), a subsequent \<^verbatim>\<open>Get(u)\<close> returns exactly \<open>v\<close>.
\<close>

theorem MapTo_hint:
  "InterfaceOf R Zero = Some Panic \<and>
   MapTo R j v Zero = Some Panic \<and>
   (unwraps_to R t u \<and> Kind R u \<noteq> Interface
      \<longrightarrow> InterfaceOf R (ValueOf t x) = Some Panic \<and> MapTo R j v (ValueOf t x) = Some Panic) \<and>
   (unwraps_to R t u \<and> Kind R u = Interface
      \<longrightarrow> InterfaceOf R (ValueOf t x) = Some (Return u) \<and>
          MapTo R j v (ValueOf t x) = Some (Return (Set j (Some u) v)) \<and>
          DAList.lookup (values_of (Set j (Some u) v)) (Some u) = Some v \<and>
          (IsValid v \<longrightarrow> Get R (Set j (Some u) v) (Some u) = {(Return v, Set j (Some u) v)}))"
proof (intro conjI impI)
  show "InterfaceOf R Zero = Some Panic" by (simp add: InterfaceOf_def)
  show "MapTo R j v Zero = Some Panic" by (simp add: MapTo_def InterfaceOf_def)
next
  assume a: "unwraps_to R t u \<and> Kind R u \<noteq> Interface"
  then have "InterfaceOf_loop R t = Some Panic" using InterfaceOf_loop_unwraps[of R t u] by simp
  then show "InterfaceOf R (ValueOf t x) = Some Panic" "MapTo R j v (ValueOf t x) = Some Panic"
    by (simp_all add: MapTo_def InterfaceOf_def)
next
  assume a: "unwraps_to R t u \<and> Kind R u = Interface"
  then have "InterfaceOf_loop R t = Some (Return u)" using InterfaceOf_loop_unwraps[of R t u] by simp
  then show "InterfaceOf R (ValueOf t x) = Some (Return u)"
    "MapTo R j v (ValueOf t x) = Some (Return (Set j (Some u) v))"
    by (simp_all add: MapTo_def InterfaceOf_def Set_def)
  show "DAList.lookup (values_of (Set j (Some u) v)) (Some u) = Some v" by (simp add: Set_def)
  assume "IsValid v"
  then show "Get R (Set j (Some u) v) (Some u) = {(Return v, Set j (Some u) v)}"
    by (simp add: Set_def Get_unfold index_update)
qed

theorem MapTo_hint_witness:
  "unwraps_to go (PointerTo (PointerTo SpecialString)) SpecialString \<and>
   Kind go SpecialString = Interface \<and>
   InterfaceOf go (ValueOf (PointerTo (PointerTo SpecialString)) ()) = Some (Return SpecialString) \<and>
   MapTo go New (ValueOf T_string ''dep2'') (ValueOf (PointerTo (PointerTo SpecialString)) ())
     = Some (Return (Set New (Some SpecialString) (ValueOf T_string ''dep2''))) \<and>
   Get go (Set New (Some SpecialString) (ValueOf T_string ''dep2'')) (Some SpecialString)
     = {(Return (ValueOf T_string ''dep2''), Set New (Some SpecialString) (ValueOf T_string ''dep2''))} \<and>
   unwraps_to go (PointerTo Greeter) Greeter \<and>
   Kind go Greeter \<noteq> Interface \<and>
   InterfaceOf go (ValueOf (PointerTo Greeter) ()) = Some Panic \<and>
   MapTo go New (ValueOf T_string ''dep2'') (ValueOf (PointerTo Greeter) ()) = Some Panic"
proof -
  have u0: "unwraps_to go SpecialString SpecialString"
    by (rule unwraps_here) (simp add: go_sel)
  have u0': "unwraps_to go (PointerTo SpecialString) SpecialString"
    by (rule unwraps_step) (simp_all add: go_sel u0)
  have u1: "unwraps_to go (PointerTo (PointerTo SpecialString)) SpecialString"
    by (rule unwraps_step) (simp_all add: go_sel u0')
  have k1: "Kind go SpecialString = Interface" by (simp add: go_sel)
  have v: "IsValid (ValueOf T_string ''dep2'' :: (ty, string) Value)" by simp
  have g0: "unwraps_to go Greeter Greeter"
    by (rule unwraps_here) (simp add: go_sel)
  have u2: "unwraps_to go (PointerTo Greeter) Greeter"
    by (rule unwraps_step) (simp_all add: go_sel g0)
  have k2: "Kind go Greeter \<noteq> Interface" by (simp add: go_sel)
  note T1 = mp[OF conjunct2[OF conjunct2[OF conjunct2[OF
      MapTo_hint [of go "New :: (ty, string) injector" "ValueOf T_string ''dep2''"
        "PointerTo (PointerTo SpecialString)" SpecialString "()"]]]] conjI[OF u1 k1]]
  have p1: "InterfaceOf go (ValueOf (PointerTo (PointerTo SpecialString)) ()) = Some (Return SpecialString)"
    by (rule conjunct1[OF T1])
  have p2: "MapTo go New (ValueOf T_string ''dep2'') (ValueOf (PointerTo (PointerTo SpecialString)) ())
       = Some (Return (Set New (Some SpecialString) (ValueOf T_string ''dep2'')))"
    by (rule conjunct1[OF conjunct2[OF T1]])
  have p3: "Get go (Set New (Some SpecialString) (ValueOf T_string ''dep2'')) (Some SpecialString)
       = {(Return (ValueOf T_string ''dep2''), Set New (Some SpecialString) (ValueOf T_string ''dep2''))}"
    by (rule mp[OF conjunct2[OF conjunct2[OF conjunct2[OF T1]]] v])
  note T2 = mp[OF conjunct1[OF conjunct2[OF conjunct2[OF
      MapTo_hint [of go "New :: (ty, string) injector" "ValueOf T_string ''dep2''"
        "PointerTo Greeter" Greeter "()"]]]] conjI[OF u2 k2]]
  have p4: "InterfaceOf go (ValueOf (PointerTo Greeter) ()) = Some Panic"
    by (rule conjunct1[OF T2])
  have p5: "MapTo go New (ValueOf T_string ''dep2'') (ValueOf (PointerTo Greeter) ()) = Some Panic"
    by (rule conjunct2[OF T2])
  show ?thesis
    by (intro conjI u1 k1 p1 p2 p3 u2 k2 p4 p5)
qed

text \<open>
  C9 as stated, for every value, fails at \<^verbatim>\<open>MapTo(nil, (*SpecialString)(nil))\<close>: the zero
  Value is stored under \<^verbatim>\<open>SpecialString\<close>, and on a registry whose parent holds \<^verbatim>\<open>"p"\<close>
  for that interface the subsequent \<^verbatim>\<open>Get(SpecialString)\<close> returns \<^verbatim>\<open>"p"\<close>.
\<close>

theorem MapTo_nil_value_counterexample:
  "MapTo go (SetParent New (Some (Set New (Some SpecialString) (ValueOf T_string ''p'')))) Zero
      (ValueOf (PointerTo SpecialString) ())
     = Some (Return (Set (SetParent New (Some (Set New (Some SpecialString) (ValueOf T_string ''p''))))
                       (Some SpecialString) Zero)) \<and>
   fst ` Get go (Set (SetParent New (Some (Set New (Some SpecialString) (ValueOf T_string ''p''))))
                       (Some SpecialString) Zero) (Some SpecialString)
     = {Return (ValueOf T_string ''p'')} \<and>
   fst ` Get go (Set (SetParent New (Some (Set New (Some SpecialString) (ValueOf T_string ''p''))))
                       (Some SpecialString) Zero) (Some SpecialString)
     \<noteq> {Return Zero}"
  by (simp add: MapTo_def InterfaceOf_def InterfaceOf_loop.simps eval_simps)

section \<open>Get does not write\<close>

text \<open>
  C10: \<^verbatim>\<open>Get\<close> is a pure read. For every registry, every requested type (the nil type
  included) and every outcome the call can have (found, matched through an interface,
  delegated to a parent, not found, or a panic), the registry is left as it was: the same
  map of types to values, in particular with no new entry for an interface matched by the
  scan, and the same parent.
\<close>

theorem Get_pure:
  "\<forall>(v, j') \<in> Get R j t. j' = j \<and> values_of j' = values_of j \<and> parent j' = parent j"
  using Get_frame by fastforce

theorem Get_pure_witness:
  "(Return (ValueOf T_string ''a''), Set New (Some T_string) (ValueOf T_string ''a''))
     \<in> Get go (Set New (Some T_string) (ValueOf T_string ''a'')) (Some SpecialString) \<and>
   DAList.lookup (values_of (Set New (Some T_string) (ValueOf T_string ''a''))) (Some SpecialString)
     = None"
  using Get_pure [of go "Set New (Some T_string) (ValueOf T_string ''a'')" "Some SpecialString"]
  by (simp add: eval_simps)

section \<open>Invoke\<close>


text \<open>Since \<^verbatim>\<open>Get\<close> leaves the registry as it was, a loop over its results is a loop over the values.\<close>

lemma UN_Get: "(\<Union>(r, j') \<in> Get R j t. F r j') = (\<Union>r \<in> results R j t. F r j)"
proof -
  have "Get R j t = (\<lambda>r. (r, j)) ` results R j t" by (rule Get_results)
  then have "(\<Union>(r, j') \<in> Get R j t. F r j') = (\<Union>(r, j') \<in> (\<lambda>r. (r, j)) ` results R j t. F r j')"
    by (rule arg_cong[where f = "\<lambda>S. \<Union>(r, j') \<in> S. F r j'"])
  also have "\<dots> = (\<Union>r \<in> results R j t. F r j)"
    by (simp only: image_image prod.case)
  finally show ?thesis .
qed


















section \<open>Apply\<close>

lemma Apply_loop_step:
  "Apply_loop R j addr (f # fs) =
     (if addr \<and> exported f then
        (case inject_tag f of
           Some tv \<Rightarrow>
             (\<Union>r \<in> results R j (Some (ftype f)).
                case r of
                  Panic \<Rightarrow> {(Panic, f # fs)}
                | Return v \<Rightarrow>
                    if \<not> IsValid v \<and> tv \<noteq> ''-''
                    then {(Return (Some (NotFound (ftype f))), f # fs)}
                    else (case Value_Set R f v of
                            Panic \<Rightarrow> {(Panic, f # fs)}
                          | Return f' \<Rightarrow> keep f' (Apply_loop R j addr fs)))
         | None \<Rightarrow> keep f (Apply_loop R j addr fs))
      else keep f (Apply_loop R j addr fs))"
  by (simp only: Apply_loop.simps UN_Get)







lemma Apply_ptr_struct:
  "Apply R j (PtrTo (StructVal fs)) =
     (\<lambda>(r, fs'). (r, PtrTo (StructVal fs'))) ` Apply_loop R j True fs"
  by (simp add: Apply_def image_image case_prod_unfold)

lemmas apply_eval = Apply_def keep_def Value_Set_def ty_AssignableTo_def eval_simps




text \<open>
  What \<^verbatim>\<open>Apply\<close> does with a skip-marked field whose type does not resolve: the test
  \<^verbatim>\<open>!v.IsValid() && tv != "-"\<close> lets the zero Value through to \<^verbatim>\<open>f.Set(v)\<close>, which panics.
\<close>

lemma Apply_skip_unresolved_general:
  assumes "exported f" and "inject_tag f = Some ''-''"
    and "fst ` Get R j (Some (ftype f)) = {Return Zero}"
  shows "Apply R j (PtrTo (StructVal (f # fs))) = {(Panic, PtrTo (StructVal (f # fs)))}"
proof -
  have "Apply_loop R j True (f # fs) = {(Panic, f # fs)}"
    unfolding Apply_loop_step using assms by (simp add: Value_Set_def)
  then show ?thesis unfolding Apply_ptr_struct by simp
qed

text \<open>
  C1 says that \<^verbatim>\<open>Apply\<close> on a pointer to a struct with a skip-marked field whose type is
  registered nowhere succeeds and leaves the field at its default. On the empty registry
  and the struct with the single field \<^verbatim>\<open>Dep2 SpecialString `inject:"-"`\<close> the code panics
  instead; the field keeps its default.
\<close>

theorem Apply_skip_unresolved_panics:
  "Apply go New
     (PtrTo (StructVal
       [\<lparr>inject_tag = Some ''-'', exported = True, ftype = SpecialString, fval = Zero\<rparr>]))
   = {(Panic,
       PtrTo (StructVal
       [\<lparr>inject_tag = Some ''-'', exported = True, ftype = SpecialString, fval = Zero\<rparr>]))}"
  by (simp add: apply_eval)

section \<open>The package's tests\<close>

text \<open>
  The tests of the package, run on the model. \<^verbatim>\<open>Test_InjectorApply\<close>, second half: without
  \<^verbatim>\<open>string\<close> registered, \<^verbatim>\<open>Apply\<close> on the test's struct returns an error and assigns nothing.
\<close>

lemma test_Apply_error:
  "Apply go (Set New (Some SpecialString) (ValueOf T_string ''dep2''))
     (PtrTo (StructVal
       [\<lparr>inject_tag = Some ''required'', exported = True, ftype = T_string, fval = ValueOf T_string []\<rparr>,
        \<lparr>inject_tag = Some ''-'', exported = True, ftype = SpecialString, fval = Zero\<rparr>,
        \<lparr>inject_tag = None, exported = True, ftype = T_string, fval = ValueOf T_string []\<rparr>]))
   = {(Return (Some (NotFound T_string)),
       PtrTo (StructVal
       [\<lparr>inject_tag = Some ''required'', exported = True, ftype = T_string, fval = ValueOf T_string []\<rparr>,
        \<lparr>inject_tag = Some ''-'', exported = True, ftype = SpecialString, fval = Zero\<rparr>,
        \<lparr>inject_tag = None, exported = True, ftype = T_string, fval = ValueOf T_string []\<rparr>]))}"
  by (simp add: apply_eval)

text \<open>\<^verbatim>\<open>Test_InjectorSetParent\<close>: the child finds in its parent what \<^verbatim>\<open>MapTo\<close> stored there.\<close>

lemma test_SetParent:
  "MapTo go New (ValueOf T_string ''another dep'') (ValueOf (PointerTo SpecialString) ())
     = Some (Return (Set New (Some SpecialString) (ValueOf T_string ''another dep''))) \<and>
   InterfaceOf go (ValueOf (PointerTo SpecialString) ()) = Some (Return SpecialString) \<and>
   fst ` Get go (SetParent New (Some (Set New (Some SpecialString) (ValueOf T_string ''another dep''))))
     (Some SpecialString) = {Return (ValueOf T_string ''another dep'')}"
  by (simp add: MapTo_def InterfaceOf_def InterfaceOf_loop.simps eval_simps)

text \<open>\<^verbatim>\<open>Test_InjectorInvokeReturnValues\<close>: a function without parameters, two results.\<close>

lemma test_Invoke_return_values:
  "Invoke go New
     (Function [] False (Some (\<lambda>args w. ([ValueOf T_string ''test'', ValueOf T_bool ''false''], w)))) ()
   = {(Return ([ValueOf T_string ''test'', ValueOf T_bool ''false''], None), ())}"
  by (simp add: Invoke_def Call_def)

text \<open>\<^verbatim>\<open>Test_InterfaceOf\<close>: pointers to an interface, and a pointer to a struct.\<close>

lemma test_InterfaceOf:
  "InterfaceOf go (ValueOf (PointerTo SpecialString) ()) = Some (Return SpecialString)"
  "InterfaceOf go (ValueOf (PointerTo (PointerTo SpecialString)) ()) = Some (Return SpecialString)"
  "InterfaceOf go (ValueOf (PointerTo Greeter) ()) = Some Panic"
  by (simp_all add: InterfaceOf_def InterfaceOf_loop.simps go_sel)

text \<open>
  \<^verbatim>\<open>Test_InjectImplementors\<close>: with a \<^verbatim>\<open>*Greeter\<close> mapped, \<^verbatim>\<open>Get\<close> of \<^verbatim>\<open>fmt.Stringer\<close> returns
  it.
\<close>

lemma test_Implementors:
  "fst ` Get go (Map New (ValueOf (PointerTo Greeter) ''Jeremy'')) (Some Stringer)
     = {Return (ValueOf (PointerTo Greeter) ''Jeremy'')}"
  by (simp add: eval_simps)

text \<open>The caller contract violations: neither a struct nor a function.\<close>

lemma Apply_not_struct:
  "Apply R j NonStruct = {(Panic, NonStruct)}"
  "Apply R j NilPtr = {(Panic, NilPtr)}"
  "Apply R j (PtrTo NilPtr) = {(Panic, PtrTo NilPtr)}"
  by (simp_all add: Apply_def)

lemma Invoke_not_function: "Invoke R j NotFunc w = {(Panic, w)}"
  by (simp add: Invoke_def)

text \<open>
  A struct passed by value is not addressable, so none of its fields can be set:
  \<^verbatim>\<open>Apply\<close> returns nil and assigns nothing, whatever the tags and the registry.
\<close>

lemma Apply_loop_not_addressable: "Apply_loop R j False fs = {(Return None, fs)}"
  by (induction fs) (simp_all add: keep_def)

lemma Apply_by_value: "Apply R j (StructVal fs) = {(Return None, StructVal fs)}"
  by (simp add: Apply_def Apply_loop_not_addressable)

text \<open>
  With the nil \<^verbatim>\<open>reflect.Type\<close>: \<^verbatim>\<open>Get(nil)\<close> returns a valid value stored under the nil key,
  and panics (in \<^verbatim>\<open>t.Kind()\<close>) when there is none.
\<close>

lemma Get_nil_type:
  "fst ` Get R j None =
     (if IsValid (index (values_of j) None) then {Return (index (values_of j) None)} else {Panic})"
  by (rule results_nil_type)

end
